theory Spec2Isabelle
  imports Complex_Main
begin

section \<open>Data model of \<^verbatim>\<open>src/services/chroma_db.py\<close>\<close>

text \<open>
  Python exceptions are values. \<open>Exception md e\<close> is the exception that
  \<^verbatim>\<open>initialize_db\<close> builds with the message
  \<^verbatim>\<open>f"error reading file with metadata {d['metadata']}, details follow ... {e}"\<close>:
  it carries the record's metadata and the exception it wraps.
\<close>

type_synonym token = int

type_synonym metadata = "(string \<times> string) list"

datatype error =
    AssertionError
  | KeyError string
  | ValueError
  | TypeError
  | IndexError
  | BackendError
  | Exception metadata error

text \<open>A value that stands where the code expects a \<^verbatim>\<open>str\<close>: text, or \<^verbatim>\<open>None\<close>.\<close>

datatype pyval = PyNone | PyStr string

text \<open>
  The fields of \<^verbatim>\<open>DataConfig\<close> (configurator.py) that the service reads.
\<close>

record data_config =
  db_chunk_size :: int
  db_chunk_overlap :: int
  db_batch_size :: int
  db_directory :: string
  db_name :: string
  embedding_model :: string
  embedding_model_tokenizer :: string
  distance_metric :: string

text \<open>
  A loaded ingestion file is a dict; a key that is absent is \<open>None\<close> here, and
  reading it raises \<^verbatim>\<open>KeyError\<close>.
\<close>

record file_json =
  document :: "pyval option"
  metadata :: "metadata option"

text \<open>
  \<^verbatim>\<open>SearchResultItem\<close>: url, optional title, optional content, and the query that
  found it (field \<open>sr_query\<close>, since \<open>query\<close> is the service's method below).
\<close>

record search_result_item =
  url :: string
  title :: "string option"
  content :: "string option"
  sr_query :: string

text \<open>
  \<^verbatim>\<open>Chunk\<close> (fields text, metadata, distance, id; prefixed here, since \<open>text\<close>
  and \<open>id\<close> are taken) and the raw answer of \<^verbatim>\<open>collection.query\<close>, which has
  one row per query text.
\<close>

record chunk =
  chunk_text :: string
  chunk_metadata :: metadata
  chunk_distance :: real
  chunk_id :: string

record raw_results =
  r_ids :: "string list list"
  r_documents :: "string list list"
  r_metadatas :: "metadata list list"
  r_distances :: "real list list"

text \<open>The calls that the service issues to the backing collection, in order.\<close>

datatype call =
    AddCall "pyval list" "metadata list" "string list"
  | QueryCall "string list" int "metadata option"

text \<open>A tiktoken encoding: both directions may raise.\<close>

record tokenizer =
  tk_encode :: "pyval \<Rightarrow> error + token list"
  tk_decode :: "token option list \<Rightarrow> error + string"

text \<open>
  Everything outside the repository is a parameter: tiktoken's registry of encodings
  (\<open>None\<close> for an unknown name, where \<^verbatim>\<open>get_encoding\<close> raises \<^verbatim>\<open>ValueError\<close>),
  the stream of values of \<^verbatim>\<open>str(uuid.uuid4())\<close>, the construction of the embedding
  function, client and collection, and the collection's \<^verbatim>\<open>add\<close>, \<^verbatim>\<open>count\<close> and
  \<^verbatim>\<open>query\<close>. \<open>'c\<close> is the state of the backing collection.
\<close>

record 'c env =
  get_encoding :: "string \<Rightarrow> tokenizer option"
  uuid4 :: "nat \<Rightarrow> string"
  attach :: "string \<Rightarrow> string \<Rightarrow> string \<Rightarrow> string \<Rightarrow> bool \<Rightarrow> error + 'c"
  store_add :: "'c \<Rightarrow> pyval list \<Rightarrow> metadata list \<Rightarrow> string list \<Rightarrow> error option \<times> 'c"
  store_count :: "'c \<Rightarrow> int"
  store_query :: "'c \<Rightarrow> string list \<Rightarrow> int \<Rightarrow> metadata option \<Rightarrow> error + raw_results"

text \<open>
  The service object: its configuration, its collection, the calls issued to the
  collection so far, and how many uuids have been drawn.
\<close>

record 'c service =
  config :: data_config
  collection :: 'c
  calls :: "call list"
  uuid_count :: nat

section \<open>The tokenizer lambdas\<close>

text \<open>
  \<^verbatim>\<open>self.encode = lambda x: tt.get_encoding(name).encode(x)\<close> and its siblings:
  the encoding is looked up at each call.
\<close>

definition encode :: "'c env \<Rightarrow> 'c service \<Rightarrow> pyval \<Rightarrow> error + token list" where
  "encode env self x =
     (case get_encoding env (embedding_model_tokenizer (config self)) of
        None \<Rightarrow> Inl ValueError
      | Some tk \<Rightarrow> tk_encode tk x)"

definition decode :: "'c env \<Rightarrow> 'c service \<Rightarrow> token option list \<Rightarrow> error + string" where
  "decode env self x =
     (case get_encoding env (embedding_model_tokenizer (config self)) of
        None \<Rightarrow> Inl ValueError
      | Some tk \<Rightarrow> tk_decode tk x)"

definition get_tokens :: "'c env \<Rightarrow> 'c service \<Rightarrow> pyval \<Rightarrow> error + int" where
  "get_tokens env self x =
     (case encode env self x of Inl e \<Rightarrow> Inl e | Inr ts \<Rightarrow> Inr (int (length ts)))"

section \<open>Chunking\<close>

text \<open>
  \<^verbatim>\<open>xs[i::step]\<close> for \<open>i \<ge> 0\<close>, as CPython computes it: a zero step raises
  \<^verbatim>\<open>ValueError\<close>; otherwise the start is clipped to the list, the number of elements
  is computed, and the elements are read at \<open>start + k * step\<close>.
\<close>

definition py_slice :: "'a list \<Rightarrow> nat \<Rightarrow> int \<Rightarrow> error + 'a list" where
  "py_slice xs i step =
     (let L = length xs in
      if step = 0 then Inl ValueError
      else if 0 < step then
        Inr (map (\<lambda>k. xs ! (i + k * nat step))
               [0..<(if i < L then (L - i - 1) div nat step + 1 else 0)])
      else if L = 0 then Inr []
      else
        (let start = min i (L - 1) in
         Inr (map (\<lambda>k. xs ! (start - k * nat (- step)))
                [0..<start div nat (- step) + 1])))"

text \<open>The number of elements of \<^verbatim>\<open>xs[i::s]\<close> for a list of length \<open>L\<close> and \<open>s > 0\<close>.\<close>

definition slice_len :: "nat \<Rightarrow> nat \<Rightarrow> nat \<Rightarrow> nat" where
  "slice_len L s i = (if i < L then (L - i - 1) div s + 1 else 0)"

text \<open>A list comprehension whose body may raise: the first exception wins.\<close>

fun traverse :: "('a \<Rightarrow> error + 'b) \<Rightarrow> 'a list \<Rightarrow> error + 'b list" where
  "traverse f [] = Inr []"
| "traverse f (x # xs) =
     (case f x of
        Inl e \<Rightarrow> Inl e
      | Inr y \<Rightarrow> (case traverse f xs of Inl e \<Rightarrow> Inl e | Inr ys \<Rightarrow> Inr (y # ys)))"

text \<open>
  \<^verbatim>\<open>itertools.zip_longest(*xss)\<close>: as many rows as the longest list has elements, the
  shorter lists filled with \<^verbatim>\<open>None\<close>; no rows when there are no lists.
\<close>

definition itzip :: "'a list list \<Rightarrow> 'a option list list" where
  "itzip xss =
     map (\<lambda>j. map (\<lambda>xs. if j < length xs then Some (xs ! j) else None) xss)
       [0..<fold max (map length xss) 0]"

text \<open>
  The body of \<^verbatim>\<open>_yield_chunks\<close>:
  \<^verbatim>\<open>tuple(i for i in x if i is not None) if x[-1] is None else x\<close>.
  A row of \<^verbatim>\<open>zip_longest\<close> is never empty here, since there is one slice per
  \<^verbatim>\<open>i in range(chunk_size)\<close> and no row without a slice.
\<close>

definition yield_row :: "'a option list \<Rightarrow> 'a option list" where
  "yield_row x = (if last x = None then filter (\<lambda>i. i \<noteq> None) x else x)"

definition yield_chunks :: "'a list \<Rightarrow> int \<Rightarrow> int \<Rightarrow> error + 'a option list list" where
  "yield_chunks doc chunk_size overlap =
     (case traverse (\<lambda>i. py_slice doc i (chunk_size - overlap)) [0..<nat chunk_size] of
        Inl e \<Rightarrow> Inl e
      | Inr slices \<Rightarrow> Inr (map yield_row (itzip slices)))"

definition get_chunks_and_metadatas ::
  "'c env \<Rightarrow> 'c service \<Rightarrow> file_json \<Rightarrow> error + (string list \<times> metadata list)" where
  "get_chunks_and_metadatas env self fj =
     (case document fj of
        None \<Rightarrow> Inl (KeyError ''document'')
      | Some txt \<Rightarrow>
          (case encode env self txt of
             Inl e \<Rightarrow> Inl e
           | Inr doc \<Rightarrow>
               (case yield_chunks doc (db_chunk_size (config self))
                       (db_chunk_overlap (config self)) of
                  Inl e \<Rightarrow> Inl e
                | Inr ws \<Rightarrow>
                    (case traverse (decode env self) ws of
                       Inl e \<Rightarrow> Inl e
                     | Inr chunks \<Rightarrow>
                         (case metadata fj of
                            None \<Rightarrow> Inl (KeyError ''metadata'')
                          | Some md \<Rightarrow> Inr (chunks, replicate (length chunks) md))))))"

text \<open>
  Notation for the statements about chunking: the tokens a window of \<open>chunk_size\<close>
  tokens holds when it starts at offset \<open>j * (chunk_size - overlap)\<close>, and the number
  of start offsets below \<open>L\<close>, which is \<open>ceil (L / (chunk_size - overlap))\<close>.
\<close>

definition window :: "'a list \<Rightarrow> int \<Rightarrow> int \<Rightarrow> nat \<Rightarrow> 'a list" where
  "window doc chunk_size overlap j =
     take (nat chunk_size) (drop (j * nat (chunk_size - overlap)) doc)"

definition window_count :: "nat \<Rightarrow> int \<Rightarrow> int \<Rightarrow> nat" where
  "window_count L chunk_size overlap =
     (L + nat (chunk_size - overlap) - 1) div nat (chunk_size - overlap)"

section \<open>Construction\<close>

text \<open>
  \<^verbatim>\<open>__init__\<close>: the embedding function, the optional wipe of the directory, the
  client and the collection are the environment's \<open>attach\<close>, which sees the directory,
  the collection name, the embedding model, the distance metric and the recreate flag.
  The three tokenizer lambdas are only created.
\<close>

definition init :: "'c env \<Rightarrow> data_config \<Rightarrow> bool \<Rightarrow> error + 'c service" where
  "init env cfg recreate_collection =
     (case attach env (db_directory cfg) (db_name cfg) (embedding_model cfg)
             (distance_metric cfg) recreate_collection of
        Inl e \<Rightarrow> Inl e
      | Inr c \<Rightarrow> Inr \<lparr>config = cfg, collection = c, calls = [], uuid_count = 0\<rparr>)"

section \<open>Adding documents\<close>

definition BATCH_SIZE :: nat where
  "BATCH_SIZE = 200"

text \<open>
  \<^verbatim>\<open>itertools.batched(xs, n)\<close>. It raises for \<open>n < 1\<close>; the only \<open>n\<close> in the
  source is \<^verbatim>\<open>_BATCH_SIZE\<close>, and the test on \<open>n\<close> below only serves termination.
\<close>

function batched :: "nat \<Rightarrow> 'a list \<Rightarrow> 'a list list" where
  "batched n xs = (if n = 0 \<or> xs = [] then [] else take n xs # batched n (drop n xs))"
  by pat_completeness auto
termination
  by (relation "measure (\<lambda>(n, xs). length xs)") auto

declare batched.simps [simp del]

text \<open>
  One \<^verbatim>\<open>self.collection.add(...)\<close>: the call is recorded, the collection answers with
  its new state and, when it raises, the exception.
\<close>

definition collection_add ::
  "'c env \<Rightarrow> 'c service \<Rightarrow> pyval list \<Rightarrow> metadata list \<Rightarrow> string list
     \<Rightarrow> error option \<times> 'c service" where
  "collection_add env self d m i =
     (case store_add env (collection self) d m i of
        (r, c) \<Rightarrow> (r, self\<lparr>collection := c, calls := calls self @ [AddCall d m i]\<rparr>))"

text \<open>The \<^verbatim>\<open>for (_d, _m, _i) in zip(_docs, _mds, _ids)\<close> loop.\<close>

fun add_loop ::
  "'c env \<Rightarrow> 'c service \<Rightarrow> (pyval list \<times> metadata list \<times> string list) list
     \<Rightarrow> error option \<times> 'c service" where
  "add_loop env self [] = (None, self)"
| "add_loop env self ((d, m, i) # bs) =
     (case collection_add env self d m i of
        (Some e, self') \<Rightarrow> (Some e, self')
      | (None, self') \<Rightarrow> add_loop env self' bs)"

definition add_documents ::
  "'c env \<Rightarrow> 'c service \<Rightarrow> pyval list \<Rightarrow> metadata list option \<Rightarrow> string list option
     \<Rightarrow> (error + string list) \<times> 'c service" where
  "add_documents env self documents metadatas ids =
     (case (case ids of
              None \<Rightarrow>
                (map (uuid4 env) [uuid_count self..<uuid_count self + length documents],
                 self\<lparr>uuid_count := uuid_count self + length documents\<rparr>)
            | Some given \<Rightarrow> (given, self)) of
        (ids1, self1) \<Rightarrow>
          (let metadatas1 =
                 (case metadatas of
                    None \<Rightarrow> replicate (length documents) []
                  | Some given \<Rightarrow> given)
           in if \<exists>d \<in> set documents. d = PyNone then (Inl AssertionError, self1)
              else
                (case add_loop env self1
                        (zip (batched BATCH_SIZE documents)
                           (zip (batched BATCH_SIZE metadatas1) (batched BATCH_SIZE ids1))) of
                   (Some e, self2) \<Rightarrow> (Inl e, self2)
                 | (None, self2) \<Rightarrow> (Inr ids1, self2))))"

section \<open>Ingestion\<close>

text \<open>
  The loop of \<^verbatim>\<open>initialize_db\<close> over the loaded files. \<^verbatim>\<open>except Exception\<close>
  catches every error of the model; the handler reads \<^verbatim>\<open>d['metadata']\<close> for its
  message, which raises \<^verbatim>\<open>KeyError\<close> itself when the key is absent.
\<close>

fun initialize_loop ::
  "'c env \<Rightarrow> 'c service \<Rightarrow> file_json list \<Rightarrow> string list \<Rightarrow> metadata list
     \<Rightarrow> error + (string list \<times> metadata list)" where
  "initialize_loop env self [] chunks metadatas = Inr (chunks, metadatas)"
| "initialize_loop env self (d # data) chunks metadatas =
     (case get_chunks_and_metadatas env self d of
        Inl e \<Rightarrow>
          (case metadata d of
             None \<Rightarrow> Inl (KeyError ''metadata'')
           | Some md \<Rightarrow> Inl (Exception md e))
      | Inr (ch, md) \<Rightarrow> initialize_loop env self data (chunks @ ch) (metadatas @ md))"

text \<open>\<open>data\<close> is the list of the loaded JSON files (reading them is outside the model).\<close>

definition initialize_db ::
  "'c env \<Rightarrow> 'c service \<Rightarrow> file_json list \<Rightarrow> (error + string list) \<times> 'c service" where
  "initialize_db env self data =
     (case initialize_loop env self data [] [] of
        Inl e \<Rightarrow> (Inl e, self)
      | Inr (chunks, metadatas) \<Rightarrow>
          add_documents env self (map PyStr chunks) (Some metadatas) None)"

text \<open>The loop of \<^verbatim>\<open>add_search_results\<close>: no handler around the chunking.\<close>

fun search_loop ::
  "'c env \<Rightarrow> 'c service \<Rightarrow> file_json list \<Rightarrow> string list \<Rightarrow> metadata list
     \<Rightarrow> error + (string list \<times> metadata list)" where
  "search_loop env self [] chunks mds = Inr (chunks, mds)"
| "search_loop env self (d # docs) chunks mds =
     (case get_chunks_and_metadatas env self d of
        Inl e \<Rightarrow> Inl e
      | Inr (ch, md) \<Rightarrow> search_loop env self docs (chunks @ ch) (mds @ md))"

text \<open>
  The dict that \<^verbatim>\<open>add_search_results\<close> builds from one item:
  \<^verbatim>\<open>{"document": sr.content, "metadata": {"title": sr.title or "", "url": sr.url}}\<close>.
\<close>

definition search_doc :: "search_result_item \<Rightarrow> file_json" where
  "search_doc sr =
     \<lparr>document = Some (case content sr of None \<Rightarrow> PyNone | Some c \<Rightarrow> PyStr c),
      metadata = Some [(''title'', case title sr of None \<Rightarrow> [] | Some t \<Rightarrow> t),
                       (''url'', url sr)]\<rparr>"

definition add_search_results ::
  "'c env \<Rightarrow> 'c service \<Rightarrow> search_result_item list
     \<Rightarrow> (error + string list) \<times> 'c service" where
  "add_search_results env self search_results =
     (let non_null = filter (\<lambda>sr. content sr \<noteq> None) search_results;
          docs = map search_doc non_null
      in if \<not> 0 < length docs then (Inl AssertionError, self)
         else
           (case search_loop env self docs [] [] of
              Inl e \<Rightarrow> (Inl e, self)
            | Inr (chunks, mds) \<Rightarrow> add_documents env self (map PyStr chunks) (Some mds) None))"

section \<open>Querying\<close>

definition get_count :: "'c env \<Rightarrow> 'c service \<Rightarrow> int" where
  "get_count env self = store_count env (collection self)"

text \<open>\<^verbatim>\<open>xs[0]\<close>.\<close>

definition first :: "'a list \<Rightarrow> error + 'a" where
  "first xs = (case xs of [] \<Rightarrow> Inl IndexError | x # _ \<Rightarrow> Inr x)"

text \<open>
  \<^verbatim>\<open>query\<close>; its parameter \<^verbatim>\<open>where\<close> is \<open>whr\<close> here, and \<^verbatim>\<open>ids\<close> is not
  used by the source either. The four rows are zipped, so the chunks come in the
  order of the collection's answer.
\<close>

definition query ::
  "'c env \<Rightarrow> 'c service \<Rightarrow> string \<Rightarrow> int \<Rightarrow> metadata option \<Rightarrow> string list option
     \<Rightarrow> (error + chunk list) \<times> 'c service" where
  "query env self query_text n_results whr ids =
     (let n = max 1 (min n_results (get_count env self));
          self1 = self\<lparr>calls := calls self @ [QueryCall [query_text] n whr]\<rparr>
      in case store_query env (collection self) [query_text] n whr of
           Inl e \<Rightarrow> (Inl e, self1)
         | Inr results \<Rightarrow>
             (case first (r_ids results) of
                Inl e \<Rightarrow> (Inl e, self1)
              | Inr is \<Rightarrow>
             (case first (r_documents results) of
                Inl e \<Rightarrow> (Inl e, self1)
              | Inr ds \<Rightarrow>
             (case first (r_metadatas results) of
                Inl e \<Rightarrow> (Inl e, self1)
              | Inr ms \<Rightarrow>
             (case first (r_distances results) of
                Inl e \<Rightarrow> (Inl e, self1)
              | Inr dists \<Rightarrow>
                  (Inr (map (\<lambda>(i, doc, md, dist).
                              \<lparr>chunk_text = doc, chunk_metadata = md,
                               chunk_distance = dist, chunk_id = i\<rparr>)
                          (zip is (zip ds (zip ms dists)))),
                   self1))))))"

section \<open>A concrete environment for the examples\<close>

text \<open>
  One token per character, and a collection kept in memory as the list of its
  entries, which answers a query with its first \<open>n\<close> entries at distances
  \<open>0, 1, 2, \<dots>\<close>. The encoding is registered under the name \<open>''chars''\<close> only.
\<close>

definition char_tokenizer :: tokenizer where
  "char_tokenizer =
     \<lparr>tk_encode = (\<lambda>x. case x of
                        PyNone \<Rightarrow> Inl TypeError
                      | PyStr s \<Rightarrow> Inr (map (\<lambda>c. of_char c) s)),
      tk_decode = (\<lambda>ts. if list_all (\<lambda>t. t \<noteq> None) ts
                        then Inr (map (\<lambda>t. case t of None \<Rightarrow> CHR ''?'' | Some k \<Rightarrow> char_of k) ts)
                        else Inl TypeError)\<rparr>"

type_synonym mem_collection = "(string \<times> pyval \<times> metadata) list"

definition mem_env :: "mem_collection env" where
  "mem_env =
     \<lparr>get_encoding = (\<lambda>name. if name = ''chars'' then Some char_tokenizer else None),
      uuid4 = (\<lambda>k. replicate (Suc k) CHR ''u''),
      attach = (\<lambda>dir name model metric recreate. Inr []),
      store_add = (\<lambda>c d m i. (None, c @ zip i (zip d m))),
      store_count = (\<lambda>c. int (length c)),
      store_query = (\<lambda>c texts n whr.
         Inr \<lparr>r_ids = [map fst (take (nat n) c)],
              r_documents =
                [map (\<lambda>(i, d, m). case d of PyNone \<Rightarrow> [] | PyStr s \<Rightarrow> s) (take (nat n) c)],
              r_metadatas = [map (\<lambda>(i, d, m). m) (take (nat n) c)],
              r_distances = [map real [0..<min (nat n) (length c)]]\<rparr>)\<rparr>"

text \<open>The same environment with a collection that refuses every \<^verbatim>\<open>add\<close>.\<close>

definition failing_env :: "mem_collection env" where
  "failing_env = mem_env\<lparr>store_add := (\<lambda>c d m i. (Some BackendError, c))\<rparr>"

definition mem_config :: "int \<Rightarrow> int \<Rightarrow> string \<Rightarrow> data_config" where
  "mem_config chunk_size overlap tokenizer_name =
     \<lparr>db_chunk_size = chunk_size, db_chunk_overlap = overlap, db_batch_size = 200,
      db_directory = ''db'', db_name = ''docs'', embedding_model = ''model'',
      embedding_model_tokenizer = tokenizer_name, distance_metric = ''cosine''\<rparr>"

definition mem_service :: "int \<Rightarrow> int \<Rightarrow> string \<Rightarrow> mem_collection service" where
  "mem_service chunk_size overlap tokenizer_name =
     \<lparr>config = mem_config chunk_size overlap tokenizer_name, collection = [],
      calls = [], uuid_count = 0\<rparr>"

section \<open>Chunking: the windows\<close>

lemma traverse_ok: "(\<And>x. x \<in> set xs \<Longrightarrow> f x = Inr (g x)) \<Longrightarrow> traverse f xs = Inr (map g xs)"
  by (induction xs) auto

lemma traverse_first_error:
  "f x = Inl e \<Longrightarrow> traverse f (x # xs) = Inl e"
  by simp

lemma fold_max_ge: "a \<le> fold max ns (a::nat)"
  by (induction ns arbitrary: a) (auto intro: order_trans [OF max.cobounded2])

lemma fold_max_mem: "n \<in> set ns \<Longrightarrow> n \<le> fold max ns (a::nat)"
proof (induction ns arbitrary: a)
  case Nil
  then show ?case by simp
next
  case (Cons m ns)
  show ?case
  proof (cases "n = m")
    case True
    have "m \<le> max m a" by simp
    also have "\<dots> \<le> fold max ns (max m a)" by (rule fold_max_ge)
    finally show ?thesis using True by simp
  next
    case False
    with Cons show ?thesis by simp
  qed
qed

lemma fold_max_le: "a \<le> m \<Longrightarrow> (\<And>n. n \<in> set ns \<Longrightarrow> n \<le> m) \<Longrightarrow> fold max ns (a::nat) \<le> m"
  by (induction ns arbitrary: a) auto

lemma fold_max_eq:
  assumes "m \<in> set ns" and "\<And>n. n \<in> set ns \<Longrightarrow> n \<le> m"
  shows "fold max ns (0::nat) = m"
  using fold_max_mem [OF assms(1), of 0] fold_max_le [of 0 m ns] assms(2) by force

lemma lt_slice_len: "0 < s \<Longrightarrow> j < slice_len L s i \<longleftrightarrow> i + j * s < L"
proof (cases "i < L")
  case False
  then show ?thesis by (simp add: slice_len_def)
next
  case True
  assume s: "0 < s"
  have "j < slice_len L s i \<longleftrightarrow> j \<le> (L - i - 1) div s"
    using True by (simp add: slice_len_def less_Suc_eq_le)
  also have "\<dots> \<longleftrightarrow> j * s \<le> L - i - 1"
    using s by (simp add: less_eq_div_iff_mult_less_eq)
  also have "\<dots> \<longleftrightarrow> i + j * s < L"
    using True by arith
  finally show ?thesis .
qed

lemma slice_len_mono: "slice_len L s i \<le> slice_len L s 0"
  unfolding slice_len_def by (auto intro: div_le_mono)

lemma slice_len_0:
  assumes "0 < s"
  shows "slice_len L s 0 = (L + s - 1) div s"
proof (cases "L = 0")
  case True
  then show ?thesis using assms by (simp add: slice_len_def)
next
  case False
  then have "L + s - 1 = (L - 1) + s" by simp
  then have "(L + s - 1) div s = (L - 1) div s + 1"
    using assms by (simp only: div_add_self2)
  then show ?thesis using False by (simp add: slice_len_def)
qed

lemma py_slice_pos:
  "0 < step \<Longrightarrow>
   py_slice xs i step =
     Inr (map (\<lambda>k. xs ! (i + k * nat step)) [0..<slice_len (length xs) (nat step) i])"
  by (simp add: py_slice_def slice_len_def Let_def)

lemma row_shape:
  "map (\<lambda>i. if i + b < length doc then Some (doc ! (i + b)) else None) [0..<n] =
   map Some (take n (drop b doc)) @ replicate (n - (length doc - b)) None"
  by (rule nth_equalityI) (auto simp: nth_append add.commute)

lemma yield_row_pad:
  assumes "w \<noteq> []"
  shows "yield_row (map Some w @ replicate k None) = map Some w"
proof (cases k)
  case 0
  then show ?thesis using assms by (simp add: yield_row_def last_map)
next
  case (Suc k')
  then show ?thesis by (simp add: yield_row_def filter_map comp_def)
qed

lemma itzip_slices:
  assumes s: "0 < s" and n: "0 < n"
  shows "itzip (map (\<lambda>i. map (\<lambda>k. doc ! (i + k * s)) [0..<slice_len (length doc) s i]) [0..<n]) =
    map (\<lambda>j. map (\<lambda>i. if i + j * s < length doc then Some (doc ! (i + j * s)) else None) [0..<n])
      [0..<slice_len (length doc) s 0]"
proof -
  let ?L = "length doc"
  let ?sl = "\<lambda>i. map (\<lambda>k. doc ! (i + k * s)) [0..<slice_len ?L s i]"
  have len: "fold max (map length (map ?sl [0..<n])) 0 = slice_len ?L s 0"
  proof (rule fold_max_eq)
    show "slice_len ?L s 0 \<in> set (map length (map ?sl [0..<n]))"
      using n by (auto simp: image_iff intro!: bexI [of _ 0])
  next
    fix m assume "m \<in> set (map length (map ?sl [0..<n]))"
    then show "m \<le> slice_len ?L s 0" by (auto simp: slice_len_mono)
  qed
  show ?thesis
    unfolding itzip_def len
    by (auto simp: lt_slice_len [OF s] comp_def)
qed

lemma yield_chunks_windows:
  assumes cs: "0 < cs" and ov: "ov < cs"
  shows "yield_chunks doc cs ov =
    Inr (map (\<lambda>j. map Some (take (nat cs) (drop (j * nat (cs - ov)) doc)))
           [0..<(length doc + nat (cs - ov) - 1) div nat (cs - ov)])"
proof -
  let ?s = "nat (cs - ov)"
  let ?L = "length doc"
  have s: "0 < ?s" using ov by simp
  have n: "0 < nat cs" using cs by simp
  have tr: "traverse (\<lambda>i. py_slice doc i (cs - ov)) [0..<nat cs] =
      Inr (map (\<lambda>i. map (\<lambda>k. doc ! (i + k * ?s)) [0..<slice_len ?L ?s i]) [0..<nat cs])"
    using ov by (intro traverse_ok) (simp add: py_slice_pos)
  have row: "yield_row (map (\<lambda>i. if i + j * ?s < ?L then Some (doc ! (i + j * ?s)) else None) [0..<nat cs])
      = map Some (take (nat cs) (drop (j * ?s) doc))" if "j < slice_len ?L ?s 0" for j
  proof -
    from that have "j * ?s < ?L" using lt_slice_len [OF s, of j ?L 0] by simp
    then have "take (nat cs) (drop (j * ?s) doc) \<noteq> []" using n by simp
    then show ?thesis unfolding row_shape by (rule yield_row_pad)
  qed
  have rows: "map yield_row
      (map (\<lambda>j. map (\<lambda>i. if i + j * ?s < ?L then Some (doc ! (i + j * ?s)) else None) [0..<nat cs])
         [0..<slice_len ?L ?s 0]) =
      map (\<lambda>j. map Some (take (nat cs) (drop (j * ?s) doc))) [0..<slice_len ?L ?s 0]"
    unfolding map_map by (rule map_cong) (simp_all add: row)
  show ?thesis
    unfolding yield_chunks_def tr
    by (simp only: sum.case itzip_slices [OF s n] rows, simp only: slice_len_0 [OF s])
qed

lemma yield_chunks_window:
  assumes "0 < cs" and "ov < cs"
  shows "yield_chunks doc cs ov =
    Inr (map (\<lambda>j. map Some (window doc cs ov j)) [0..<window_count (length doc) cs ov])"
  using yield_chunks_windows [OF assms] by (simp add: window_def window_count_def)

lemma lt_window_count:
  assumes "ov < cs"
  shows "j < window_count L cs ov \<longleftrightarrow> j * nat (cs - ov) < L"
proof -
  have s: "0 < nat (cs - ov)" using assms by simp
  show ?thesis
    using lt_slice_len [OF s, of j L 0] by (simp add: window_count_def slice_len_0 [OF s])
qed

lemma length_window:
  "length (window doc cs ov j) = min (nat cs) (length doc - j * nat (cs - ov))"
  by (simp add: window_def min.commute)

lemma get_chunks_and_metadatas_ok:
  assumes cs: "0 < db_chunk_size (config self)"
    and ov: "db_chunk_overlap (config self) < db_chunk_size (config self)"
    and tk: "get_encoding env (embedding_model_tokenizer (config self)) = Some tk"
    and dtxt: "document fj = Some txt"
    and enc: "tk_encode tk txt = Inr doc"
    and dec: "\<And>w. tk_decode tk (map Some w) = Inr (dec w)"
    and md: "metadata fj = Some md"
  shows "get_chunks_and_metadatas env self fj =
    Inr (map (\<lambda>j. dec (window doc (db_chunk_size (config self)) (db_chunk_overlap (config self)) j))
           [0..<window_count (length doc) (db_chunk_size (config self)) (db_chunk_overlap (config self))],
         replicate (window_count (length doc) (db_chunk_size (config self)) (db_chunk_overlap (config self))) md)"
proof -
  let ?cs = "db_chunk_size (config self)" and ?ov = "db_chunk_overlap (config self)"
  let ?n = "window_count (length doc) ?cs ?ov"
  have e: "encode env self txt = Inr doc"
    by (simp add: encode_def tk enc)
  have d: "traverse (decode env self) (map (\<lambda>j. map Some (window doc ?cs ?ov j)) [0..<?n]) =
      Inr (map (\<lambda>j. dec (window doc ?cs ?ov j)) [0..<?n])"
  proof -
    have "traverse (decode env self) (map (\<lambda>j. map Some (window doc ?cs ?ov j)) [0..<?n]) =
      Inr (map (\<lambda>x. dec (map the x)) (map (\<lambda>j. map Some (window doc ?cs ?ov j)) [0..<?n]))"
      by (rule traverse_ok) (auto simp: decode_def tk dec comp_def)
    then show ?thesis by (simp add: comp_def)
  qed
  show ?thesis
    by (simp add: get_chunks_and_metadatas_def dtxt e yield_chunks_window [OF cs ov] d md)
qed


lemma up_bound:
  fixes n s L :: nat
  assumes "0 < s" and "L \<le> n * s"
  shows "real L / real s \<le> real n"
proof -
  have "real L \<le> real (n * s)" using assms(2) by (rule of_nat_mono)
  then have "real L \<le> real n * real s" by (simp only: of_nat_mult)
  moreover have "0 < real s" using assms(1) by simp
  ultimately show ?thesis by (simp only: pos_divide_le_eq)
qed

lemma low_bound:
  fixes n s L :: nat
  assumes "0 < s" and "0 < n" and "(n - 1) * s < L"
  shows "real n - 1 < real L / real s"
proof -
  have "real ((n - 1) * s) < real L" using assms(3) by (simp only: of_nat_less_iff)
  then have "real (n - 1) * real s < real L" by (simp only: of_nat_mult)
  moreover have "0 < real s" using assms(1) by simp
  ultimately have "real (n - 1) < real L / real s" by (simp only: pos_less_divide_eq)
  moreover have "real (n - 1) = real n - 1" using assms(2) by (simp add: of_nat_diff)
  ultimately show ?thesis by simp
qed

lemma window_count_ceiling:
  assumes "ov < cs"
  shows "int (window_count L cs ov) = \<lceil>real L / real_of_int (cs - ov)\<rceil>"
proof -
  let ?n = "window_count L cs ov" and ?s = "nat (cs - ov)"
  have s: "0 < ?s" using assms by simp
  have "\<not> ?n * ?s < L" using lt_window_count [OF assms, of ?n L] by simp
  then have "L \<le> ?n * ?s" by (simp only: not_less)
  then have up: "real L / real ?s \<le> real ?n" by (rule up_bound [OF s])
  have low: "real ?n - 1 < real L / real ?s"
  proof (cases "?n = 0")
    case True
    have "(- 1 :: real) < 0" by simp
    also have "0 \<le> real L / real ?s" by (rule divide_nonneg_nonneg) simp_all
    finally show ?thesis by (simp only: True of_nat_0 diff_0)
  next
    case False
    then have n: "0 < ?n" by (simp only: neq0_conv)
    have "?n - 1 < ?n" using n by arith
    then have "(?n - 1) * ?s < L" by (simp only: lt_window_count [OF assms])
    then show ?thesis by (rule low_bound [OF s n])
  qed
  have "\<lceil>real L / real ?s\<rceil> = int ?n"
  proof (rule ceiling_unique)
    show "of_int (int ?n) - 1 < real L / real ?s" using low by (simp only: of_int_of_nat_eq)
    show "real L / real ?s \<le> of_int (int ?n)" using up by (simp only: of_int_of_nat_eq)
  qed
  moreover have "real_of_int (cs - ov) = real ?s" using assms by simp
  ultimately show ?thesis by (simp only:)
qed

lemma window_overlap:
  assumes "0 \<le> ov" and "ov < cs"
  shows "drop (nat (cs - ov)) (window doc cs ov j) = take (nat ov) (window doc cs ov (Suc j))"
proof -
  have "nat cs - nat (cs - ov) = nat ov" using assms by simp
  moreover have "min (nat ov) (nat cs) = nat ov" using assms by simp
  ultimately show ?thesis
    by (simp add: window_def drop_take add.commute)
qed

lemma char_tokenizer_decode:
  "tk_decode char_tokenizer (map Some w) = Inr (map char_of w)"
  by (simp add: char_tokenizer_def list_all_iff comp_def)

lemma window_length_bounds:
  assumes "0 < cs" and "ov < cs" and "j < window_count (length doc) cs ov"
  shows "1 \<le> length (window doc cs ov j) \<and> length (window doc cs ov j) \<le> nat cs"
proof -
  have "j * nat (cs - ov) < length doc"
    using assms(3) lt_window_count [OF assms(2)] by simp
  moreover have "0 < nat cs" using assms(1) by simp
  ultimately show ?thesis unfolding length_window by linarith
qed

lemma window_full_iff:
  assumes "0 < cs"
  shows "(length (window doc cs ov j) = nat cs) = (j * nat (cs - ov) + nat cs \<le> length doc)"
proof -
  have "0 < nat cs" using assms by simp
  then show ?thesis unfolding length_window by linarith
qed

lemma window_shared_length:
  assumes "0 \<le> ov" and "ov < cs" and "length (window doc cs ov j) = nat cs"
  shows "length (take (nat ov) (window doc cs ov (Suc j))) = nat ov"
proof -
  have c: "nat cs = nat (cs - ov) + nat ov" using assms(1,2) by simp
  have "nat cs \<le> length doc - j * nat (cs - ov)"
    using assms(3) unfolding length_window by linarith
  then have "nat ov \<le> length doc - (nat (cs - ov) + j * nat (cs - ov))"
    using c by linarith
  moreover have "nat ov \<le> nat cs" using c by linarith
  ultimately show ?thesis
    by (simp add: length_window)
qed

section \<open>C1: the windows of \<^verbatim>\<open>get_chunks_and_metadatas\<close>\<close>

text \<open>
  C1, as the code has it. For a document that encodes to \<open>L > 0\<close> tokens, with
  \<open>chunk_size = C > 0\<close> and \<open>0 \<le> overlap = O < C\<close>, \<^verbatim>\<open>get_chunks_and_metadatas\<close>
  produces exactly \<open>ceil (L / (C - O))\<close> chunks, one per start offset \<open>j * (C - O) < L\<close>:
  chunk \<open>j\<close> decodes the window of the tokens from offset \<open>j * (C - O)\<close> up to
  \<open>j * (C - O) + C\<close> or the end of the document. Every window, the last one included, has
  between \<open>1\<close> and \<open>C\<close> tokens; a window has exactly \<open>C\<close> tokens iff it ends within
  the document; what a window holds after its first \<open>C - O\<close> tokens is what the next
  window begins with, and these are exactly \<open>O\<close> tokens when the earlier window is full.
  (The count is not \<open>ceil ((L - O) / (C - O))\<close>, and windows before the last can be
  shorter than \<open>C\<close>: see the counterexample.)
\<close>

theorem get_chunks_and_metadatas_windows:
  assumes cs: "db_chunk_size (config self) = cs"
    and ov: "db_chunk_overlap (config self) = ov"
    and rng: "0 < cs" "0 \<le> ov" "ov < cs"
    and tk: "get_encoding env (embedding_model_tokenizer (config self)) = Some tk"
    and dtxt: "document fj = Some t"
    and enc: "tk_encode tk t = Inr doc"
    and ne: "doc \<noteq> []"
    and dec: "\<forall>w. tk_decode tk (map Some w) = Inr (dec w)"
    and md: "metadata fj = Some md"
  shows "get_chunks_and_metadatas env self fj =
        Inr (map (\<lambda>j. dec (window doc cs ov j)) [0..<window_count (length doc) cs ov],
             replicate (window_count (length doc) cs ov) md)
    \<and> yield_chunks doc cs ov =
        Inr (map (\<lambda>j. map Some (window doc cs ov j)) [0..<window_count (length doc) cs ov])
    \<and> int (window_count (length doc) cs ov) = \<lceil>real (length doc) / real_of_int (cs - ov)\<rceil>
    \<and> (\<forall>j < window_count (length doc) cs ov.
          1 \<le> length (window doc cs ov j) \<and> length (window doc cs ov j) \<le> nat cs)
    \<and> (\<forall>j < window_count (length doc) cs ov.
          (length (window doc cs ov j) = nat cs) = (j * nat (cs - ov) + nat cs \<le> length doc))
    \<and> (\<forall>j. Suc j < window_count (length doc) cs ov \<longrightarrow>
          drop (nat (cs - ov)) (window doc cs ov j) = take (nat ov) (window doc cs ov (Suc j)))
    \<and> (\<forall>j. Suc j < window_count (length doc) cs ov \<and> length (window doc cs ov j) = nat cs \<longrightarrow>
          length (take (nat ov) (window doc cs ov (Suc j))) = nat ov)"
proof (intro conjI allI impI)
  show "get_chunks_and_metadatas env self fj =
        Inr (map (\<lambda>j. dec (window doc cs ov j)) [0..<window_count (length doc) cs ov],
             replicate (window_count (length doc) cs ov) md)"
    using get_chunks_and_metadatas_ok [of self env tk fj t doc dec md] cs ov rng tk dtxt enc dec md
    by simp
  show "yield_chunks doc cs ov =
        Inr (map (\<lambda>j. map Some (window doc cs ov j)) [0..<window_count (length doc) cs ov])"
    by (rule yield_chunks_window [OF rng(1,3)])
  show "int (window_count (length doc) cs ov) = \<lceil>real (length doc) / real_of_int (cs - ov)\<rceil>"
    by (rule window_count_ceiling [OF rng(3)])
next
  fix j assume "j < window_count (length doc) cs ov"
  then show "1 \<le> length (window doc cs ov j)" and "length (window doc cs ov j) \<le> nat cs"
    and "(length (window doc cs ov j) = nat cs) = (j * nat (cs - ov) + nat cs \<le> length doc)"
    using window_length_bounds [OF rng(1,3)] window_full_iff [OF rng(1)] by blast+
next
  fix j
  show "drop (nat (cs - ov)) (window doc cs ov j) = take (nat ov) (window doc cs ov (Suc j))"
    by (rule window_overlap [OF rng(2,3)])
next
  fix j assume "Suc j < window_count (length doc) cs ov \<and> length (window doc cs ov j) = nat cs"
  then show "length (take (nat ov) (window doc cs ov (Suc j))) = nat ov"
    using window_shared_length [OF rng(2,3)] by blast
qed

theorem get_chunks_and_metadatas_windows_witness:
  "get_chunks_and_metadatas mem_env (mem_service 4 1 ''chars'')
     \<lparr>document = Some (PyStr ''abcdefgh''), metadata = Some [(''source'', ''test'')]\<rparr> =
     Inr ([''abcd'', ''defg'', ''gh''],
          [[(''source'', ''test'')], [(''source'', ''test'')], [(''source'', ''test'')]])
   \<and> yield_chunks [97, 98, 99, 100, 101, 102, 103, 104 :: int] 4 1 =
     Inr [[Some 97, Some 98, Some 99, Some 100], [Some 100, Some 101, Some 102, Some 103],
          [Some 103, Some 104]]
   \<and> (3::int) = \<lceil>8 / 3 :: real\<rceil>"
proof -
  let ?self = "mem_service 4 1 ''chars''"
  let ?fj = "\<lparr>document = Some (PyStr ''abcdefgh''), metadata = Some [(''source'', ''test'')]\<rparr>"
  let ?doc = "[97, 98, 99, 100, 101, 102, 103, 104 :: int]"
  have cs: "db_chunk_size (config ?self) = 4" and ov: "db_chunk_overlap (config ?self) = 1"
    by (simp_all add: mem_service_def mem_config_def)
  have tk: "get_encoding mem_env (embedding_model_tokenizer (config ?self)) = Some char_tokenizer"
    by (simp add: mem_env_def mem_service_def mem_config_def)
  have enc: "tk_encode char_tokenizer (PyStr ''abcdefgh'') = Inr ?doc"
    by code_simp
  have dec: "\<forall>w. tk_decode char_tokenizer (map Some w) = Inr (map char_of w)"
    by (simp add: char_tokenizer_decode)
  have n: "window_count (length ?doc) 4 1 = 3"
    by code_simp
  have ws: "map (\<lambda>j. window ?doc 4 1 j) [0..<3] = [[97, 98, 99, 100], [100, 101, 102, 103], [103, 104]]"
    by code_simp
  have chunks: "map (\<lambda>j. map char_of (window ?doc 4 1 j)) [0..<3] = [''abcd'', ''defg'', ''gh'']"
    by code_simp
  have somes: "map (\<lambda>j. map Some (window ?doc 4 1 j)) [0..<3] =
      [[Some 97, Some 98, Some 99, Some 100], [Some 100, Some 101, Some 102, Some 103],
       [Some 103, Some 104]]"
    by code_simp
  have r: "replicate 3 [(''source'', ''test'')] =
      [[(''source'', ''test'')], [(''source'', ''test'')], [(''source'', ''test'')]]"
    by code_simp
  note w = get_chunks_and_metadatas_windows [where self = ?self and env = mem_env and fj = ?fj
      and doc = ?doc and dec = "map char_of", OF cs ov _ _ _ tk _ enc _ dec]
  have "(0::int) < 4" "(0::int) \<le> 1" "(1::int) < 4"
    "document ?fj = Some (PyStr ''abcdefgh'')" "?doc \<noteq> []"
    "metadata ?fj = Some [(''source'', ''test'')]"
    by simp_all
  from w [OF this] show ?thesis
    unfolding n chunks somes r by simp
qed

text \<open>
  Five tokens with \<open>chunk_size = 4\<close> and \<open>overlap = 3\<close> give five chunks, of
  4, 4, 3, 2 and 1 tokens, where \<open>ceil ((L - O) / (C - O)) = 2\<close>.
\<close>

theorem chunk_count_counterexample:
  "get_chunks_and_metadatas mem_env (mem_service 4 3 ''chars'')
     \<lparr>document = Some (PyStr ''abcde''), metadata = Some []\<rparr> =
   Inr ([''abcd'', ''bcde'', ''cde'', ''de'', ''e''], [[], [], [], [], []])
   \<and> int (length [''abcd'', ''bcde'', ''cde'', ''de'', ''e'']) \<noteq> \<lceil>(5 - 3) / (4 - 3 :: real)\<rceil>
   \<and> length ''cde'' \<noteq> 4"
  by code_simp

end
